theory Spec2Isabelle
  imports Complex_Main
begin

section \<open>Numbers, vectors and numpy arrays\<close>

text \<open>
  The camera of \<^verbatim>\<open>camera.py\<close> computes with Python floats and with numpy arrays of
  three floats. Here a float is an exact real number: rounding and overflow are not
  modelled. One constant is kept as the double it is: \<^verbatim>\<open>np.pi\<close>, which is
  \<open>884279719003555 / 2 ^ 48\<close>, a little less than \<open>pi\<close>. The camera clamps \<^verbatim>\<open>phi\<close> to
  \<^verbatim>\<open>np.pi/2\<close>, and the cosine there is small and positive (about \<open>6.1e-17\<close>), not
  zero; with \<open>pi\<close> for \<^verbatim>\<open>np.pi\<close> the model would divide by zero where the program
  does not. What numpy does on a division by zero is modelled: it raises nothing and
  stores nan or inf in the array. An array holding such entries is the value
  \<open>NonFinite\<close>, a nan scalar is \<open>None\<close>, and both absorb every later operation, as nan
  does. Python's own division of two scalars raises \<^verbatim>\<open>ZeroDivisionError\<close>.
\<close>

definition np_pi :: real where
  \<comment> \<open>the double \<^verbatim>\<open>0x400921FB54442D18\<close>; the denominator is \<open>2 ^ 48\<close>\<close>
  "np_pi = 884279719003555 / 281474976710656"

datatype vec3 = Vec3 (vx: real) (vy: real) (vz: real)

datatype ndarray = Finite vec3 | NonFinite

datatype error = ZeroDivisionError

definition dot3 :: "vec3 \<Rightarrow> vec3 \<Rightarrow> real" where
  "dot3 a b = vx a * vx b + vy a * vy b + vz a * vz b"

definition norm3 :: "vec3 \<Rightarrow> real" where
  \<comment> \<open>\<^verbatim>\<open>np.linalg.norm\<close> of a finite array\<close>
  "norm3 a = sqrt ((vx a)\<^sup>2 + (vy a)\<^sup>2 + (vz a)\<^sup>2)"

definition neg3 :: "vec3 \<Rightarrow> vec3" where
  "neg3 a = Vec3 (- vx a) (- vy a) (- vz a)"

definition add3 :: "vec3 \<Rightarrow> vec3 \<Rightarrow> vec3" where
  "add3 a b = Vec3 (vx a + vx b) (vy a + vy b) (vz a + vz b)"

definition scale3 :: "real \<Rightarrow> vec3 \<Rightarrow> vec3" where
  "scale3 s a = Vec3 (s * vx a) (s * vy a) (s * vz a)"

definition div3 :: "vec3 \<Rightarrow> real \<Rightarrow> vec3" where
  "div3 a s = Vec3 (vx a / s) (vy a / s) (vz a / s)"

definition cross3 :: "vec3 \<Rightarrow> vec3 \<Rightarrow> vec3" where
  \<comment> \<open>\<^verbatim>\<open>np.cross\<close> of two arrays of three entries\<close>
  "cross3 a b = Vec3 (vy a * vz b - vz a * vy b)
                     (vz a * vx b - vx a * vz b)
                     (vx a * vy b - vy a * vx b)"

fun arr_neg :: "ndarray \<Rightarrow> ndarray" where
  "arr_neg (Finite a) = Finite (neg3 a)"
| "arr_neg NonFinite = NonFinite"

fun arr_add :: "ndarray \<Rightarrow> ndarray \<Rightarrow> ndarray" where
  "arr_add (Finite a) (Finite b) = Finite (add3 a b)"
| "arr_add _ _ = NonFinite"

fun arr_scale :: "real \<Rightarrow> ndarray \<Rightarrow> ndarray" where
  "arr_scale s (Finite a) = Finite (scale3 s a)"
| "arr_scale s NonFinite = NonFinite"

fun arr_cross :: "ndarray \<Rightarrow> ndarray \<Rightarrow> ndarray" where
  "arr_cross (Finite a) (Finite b) = Finite (cross3 a b)"
| "arr_cross _ _ = NonFinite"

fun arr_norm :: "ndarray \<Rightarrow> real option" where
  "arr_norm (Finite a) = Some (norm3 a)"
| "arr_norm NonFinite = None"

fun arr_div :: "ndarray \<Rightarrow> real option \<Rightarrow> ndarray" where
  \<comment> \<open>array divided by a scalar: no exception, nan or inf entries when the scalar is zero\<close>
  "arr_div (Finite a) (Some s) = (if s = 0 then NonFinite else Finite (div3 a s))"
| "arr_div _ _ = NonFinite"


section \<open>The camera\<close>

record camera =
  radius :: real
  theta :: real
  phi :: real
  fov :: real
  mouse_sensitivity :: real
  dragging :: bool
  dirty :: bool

definition Camera_init :: camera where
  \<comment> \<open>\<^verbatim>\<open>Camera.__init__\<close>; \<^verbatim>\<open>np.radians(50)\<close> is \<^verbatim>\<open>50 * (np.pi / 180)\<close>\<close>
  "Camera_init =
     \<lparr>radius = 50, theta = 0, phi = 0, fov = 50 * (np_pi / 180),
      mouse_sensitivity = 5 / 1000, dragging = False, dirty = True\<rparr>"

text \<open>
  The pygame events the camera looks at: a button event carries the button's number
  (1 is the primary button), a motion event the relative motion \<^verbatim>\<open>rel\<close> in pixels.
  Every other event type is \<open>OTHER_EVENT\<close>.
\<close>

datatype event =
    MOUSEBUTTONDOWN int
  | MOUSEBUTTONUP int
  | MOUSEMOTION int int
  | OTHER_EVENT

fun handle_event :: "camera \<Rightarrow> event \<Rightarrow> camera" where
  "handle_event c (MOUSEBUTTONDOWN b) = (if b = 1 then c\<lparr>dragging := True\<rparr> else c)"
| "handle_event c (MOUSEBUTTONUP b) = (if b = 1 then c\<lparr>dragging := False\<rparr> else c)"
| "handle_event c (MOUSEMOTION dx dy) =
     (if dragging c
      then c\<lparr>theta := theta c + real_of_int dx * mouse_sensitivity c,
             phi := max (- np_pi / 2)
                        (min (np_pi / 2) (phi c - real_of_int dy * mouse_sensitivity c)),
             dirty := True\<rparr>
      else c)"
| "handle_event c OTHER_EVENT = c"

definition update :: "camera \<Rightarrow> real \<Rightarrow> camera" where
  "update c dt = c"

definition consume_dirty :: "camera \<Rightarrow> bool \<times> camera" where
  "consume_dirty c = (dirty c, c\<lparr>dirty := False\<rparr>)"

definition position :: "camera \<Rightarrow> vec3" where
  "position c =
     Vec3 (radius c * cos (phi c) * cos (theta c))
          (radius c * sin (phi c))
          (radius c * cos (phi c) * sin (theta c))"


text \<open>
  \<^verbatim>\<open>basis_vectors\<close>, with one definition for each of its local values: \<open>bv_forward\<close>
  is \<^verbatim>\<open>forward\<close>, \<open>bv_right_cross\<close> is \<^verbatim>\<open>right\<close> as \<^verbatim>\<open>np.cross\<close> returns it,
  \<open>bv_right\<close> is \<^verbatim>\<open>right\<close> once divided by its norm, and \<open>bv_up\<close> is \<^verbatim>\<open>up\<close>. The camera
  is not changed by the call and nothing is stored between calls.
\<close>

definition world_up :: ndarray where
  "world_up = Finite (Vec3 0 1 0)"

definition bv_forward :: "camera \<Rightarrow> ndarray" where
  "bv_forward c =
     (let pos = Finite (position c) in arr_div (arr_neg pos) (arr_norm pos))"

definition bv_right_cross :: "camera \<Rightarrow> ndarray" where
  "bv_right_cross c = arr_cross world_up (bv_forward c)"

definition bv_right :: "camera \<Rightarrow> ndarray" where
  "bv_right c = arr_div (bv_right_cross c) (arr_norm (bv_right_cross c))"

definition bv_up :: "camera \<Rightarrow> ndarray" where
  "bv_up c = arr_cross (bv_forward c) (bv_right c)"

definition basis_vectors :: "camera \<Rightarrow> ndarray \<times> ndarray \<times> ndarray" where
  "basis_vectors c = (bv_forward c, bv_right c, bv_up c)"

text \<open>
  \<^verbatim>\<open>ray_direction\<close>: \<open>rd_dir_world\<close> is \<^verbatim>\<open>dir_world\<close> before it is divided by its norm.
  The image sizes are Python integers, so the divisions by \<^verbatim>\<open>img_w\<close> and \<^verbatim>\<open>img_h\<close>
  raise when the divisor is zero; they come after the call of \<^verbatim>\<open>basis_vectors\<close>,
  which raises nothing. \<^verbatim>\<open>np.tan\<close> is \<open>tan\<close>; no result below depends on its value.
\<close>

definition rd_dir_world :: "camera \<Rightarrow> real \<Rightarrow> real \<Rightarrow> int \<Rightarrow> int \<Rightarrow> ndarray" where
  "rd_dir_world c px py img_w img_h =
     (let (forward, right, up) = basis_vectors c;
          x_ndc = ((px + 0.5) / real_of_int img_w) * 2.0 - 1.0;
          y_ndc = 1.0 - ((py + 0.5) / real_of_int img_h) * 2.0;
          aspect = real_of_int img_w / real_of_int img_h;
          tan_half_fov = tan (fov c / 2.0);
          x_cam = x_ndc * aspect * tan_half_fov;
          y_cam = y_ndc * tan_half_fov;
          z_cam = 1.0
      in arr_add (arr_add (arr_scale x_cam right) (arr_scale y_cam up))
                 (arr_scale z_cam forward))"

definition ray_direction :: "camera \<Rightarrow> real \<Rightarrow> real \<Rightarrow> int \<Rightarrow> int \<Rightarrow> error + ndarray" where
  "ray_direction c px py img_w img_h =
     (if img_w = 0 \<or> img_h = 0 then Inl ZeroDivisionError
      else let dir_world = rd_dir_world c px py img_w img_h
           in Inr (arr_div dir_world (arr_norm dir_world)))"


text \<open>
  The operations that can change a camera, and a run of them from a given state. The
  queries \<^verbatim>\<open>position\<close>, \<^verbatim>\<open>basis_vectors\<close> and \<^verbatim>\<open>ray_direction\<close> assign no attribute,
  so they are not steps.
\<close>

datatype operation = HandleEvent event | Update real | ConsumeDirty

fun step :: "camera \<Rightarrow> operation \<Rightarrow> camera" where
  "step c (HandleEvent e) = handle_event c e"
| "step c (Update dt) = update c dt"
| "step c ConsumeDirty = snd (consume_dirty c)"

fun run :: "camera \<Rightarrow> operation list \<Rightarrow> camera" where
  "run c [] = c"
| "run c (a # as) = run (step c a) as"

definition pole_camera :: camera where
  \<comment> \<open>the constructed camera after a press of the primary button and one long drag upwards\<close>
  "pole_camera =
     run Camera_init [HandleEvent (MOUSEBUTTONDOWN 1), HandleEvent (MOUSEMOTION 0 (- 1000))]"


text \<open>
  A step assigns the orientation when it takes the branch of \<^verbatim>\<open>handle_event\<close> that
  writes \<^verbatim>\<open>theta\<close> and \<^verbatim>\<open>phi\<close>: a motion event while dragging. \<open>clamp_phi\<close> is the
  clamp to \<open>[-np_pi/2, np_pi/2]\<close> written by cases.
\<close>

fun assigns_orientation :: "camera \<Rightarrow> operation \<Rightarrow> bool" where
  "assigns_orientation c (HandleEvent (MOUSEMOTION dx dy)) = dragging c"
| "assigns_orientation c _ = False"

fun run_assigns_orientation :: "camera \<Rightarrow> operation list \<Rightarrow> bool" where
  "run_assigns_orientation c [] = False"
| "run_assigns_orientation c (a # as) =
     (assigns_orientation c a \<or> run_assigns_orientation (step c a) as)"

definition clamp_phi :: "real \<Rightarrow> real" where
  "clamp_phi p =
     (if p < - np_pi / 2 then - np_pi / 2 else if np_pi / 2 < p then np_pi / 2 else p)"


section \<open>The projection as the specification words it\<close>







section \<open>Closed forms of the basis\<close>

text \<open>
  The values the basis takes where it is finite: \<open>fwd\<close> for a positive radius, \<open>rgt\<close>
  and \<open>upv\<close> where moreover \<open>cos phi\<close> is not zero; \<open>cam_x\<close> and \<open>cam_y\<close> are the
  camera-space offsets of a pixel and \<open>dirv\<close> the world direction before normalization.
\<close>

definition fwd :: "camera \<Rightarrow> vec3" where
  "fwd c = Vec3 (- (cos (phi c) * cos (theta c))) (- sin (phi c))
                (- (cos (phi c) * sin (theta c)))"

definition rgt :: "camera \<Rightarrow> vec3" where
  "rgt c = div3 (cross3 (Vec3 0 1 0) (fwd c)) \<bar>cos (phi c)\<bar>"

definition upv :: "camera \<Rightarrow> vec3" where
  "upv c = cross3 (fwd c) (rgt c)"

definition cam_x :: "camera \<Rightarrow> real \<Rightarrow> int \<Rightarrow> int \<Rightarrow> real" where
  "cam_x c px img_w img_h =
     (((px + 0.5) / real_of_int img_w) * 2 - 1) * (real_of_int img_w / real_of_int img_h)
       * tan (fov c / 2)"

definition cam_y :: "camera \<Rightarrow> real \<Rightarrow> int \<Rightarrow> real" where
  "cam_y c py img_h = (1 - ((py + 0.5) / real_of_int img_h) * 2) * tan (fov c / 2)"

definition dirv :: "camera \<Rightarrow> real \<Rightarrow> real \<Rightarrow> int \<Rightarrow> int \<Rightarrow> vec3" where
  "dirv c px py img_w img_h =
     add3 (add3 (scale3 (cam_x c px img_w img_h) (rgt c)) (scale3 (cam_y c py img_h) (upv c)))
          (scale3 1 (fwd c))"


section \<open>Vector algebra\<close>

lemma norm3_sq: "(norm3 a)\<^sup>2 = dot3 a a"
  by (simp add: norm3_def dot3_def power2_eq_square)

lemma norm3_nonneg: "0 \<le> norm3 a"
  by (simp add: norm3_def)

lemma norm3_eq_1_iff: "norm3 a = 1 \<longleftrightarrow> dot3 a a = 1"
  by (simp add: norm3_def dot3_def power2_eq_square)


lemma norm3_div3: "norm3 (div3 a s) = norm3 a / \<bar>s\<bar>"
proof -
  have "(vx a / s)\<^sup>2 + (vy a / s)\<^sup>2 + (vz a / s)\<^sup>2
        = ((vx a)\<^sup>2 + (vy a)\<^sup>2 + (vz a)\<^sup>2) / s\<^sup>2"
    by (simp add: power_divide add_divide_distrib)
  then show ?thesis
    by (simp add: norm3_def div3_def real_sqrt_divide)
qed

lemma norm3_normalised: "norm3 a \<noteq> 0 \<Longrightarrow> norm3 (div3 a (norm3 a)) = 1"
  using norm3_nonneg [of a] by (simp add: norm3_div3)

lemma dot3_cross3_left: "dot3 a (cross3 a b) = 0"
  by (simp add: dot3_def cross3_def algebra_simps)

lemma dot3_cross3_right: "dot3 b (cross3 a b) = 0"
  by (simp add: dot3_def cross3_def algebra_simps)

lemma dot3_div3_right: "dot3 a (div3 b s) = dot3 a b / s"
  by (simp add: dot3_def div3_def add_divide_distrib)

lemma lagrange: "dot3 (cross3 a b) (cross3 a b) = dot3 a a * dot3 b b - (dot3 a b)\<^sup>2"
  by (simp add: dot3_def cross3_def power2_eq_square algebra_simps)

lemma dot3_combination:
  "dot3 (add3 (add3 (scale3 x r) (scale3 y u)) (scale3 z f))
        (add3 (add3 (scale3 x r) (scale3 y u)) (scale3 z f))
   = x\<^sup>2 * dot3 r r + y\<^sup>2 * dot3 u u + z\<^sup>2 * dot3 f f
     + 2 * x * y * dot3 r u + 2 * x * z * dot3 f r + 2 * y * z * dot3 f u"
  by (simp add: dot3_def add3_def scale3_def power2_eq_square algebra_simps)


section \<open>The double np.pi is below pi\<close>

text \<open>
  The cosine of \<open>np_pi / 2\<close> is positive: the Taylor polynomial of the cosine of degree
  20, less the bound \<open>x ^ 22 / 22!\<close> on the remainder, is positive there. The
  polynomial is evaluated on brackets of the powers of \<open>(np_pi / 2)\<^sup>2\<close> of width
  \<open>2 ^ -70\<close>. As the cosine falls from \<open>0\<close> to \<open>pi\<close> and is zero at \<open>pi / 2\<close>,
  \<open>np_pi\<close> is less than \<open>pi\<close>.
\<close>

lemma cos_taylor_lower:
  assumes "0 < x"
  shows "(\<Sum>m<22. cos_coeff m * x ^ m) - x ^ 22 / fact 22 \<le> cos x"
proof -
  obtain t where t: "cos x = (\<Sum>m<22. cos_coeff m * x ^ m)
      + (cos (t + 1/2 * real 22 * pi) / fact 22) * x ^ 22"
    using Maclaurin_cos_expansion2 [of x 22] assms by auto
  have "(x ^ 22 / fact 22) * (- 1) \<le> (x ^ 22 / fact 22) * cos (t + 1/2 * real 22 * pi)"
    using assms by (intro mult_left_mono cos_ge_minus_one) simp
  then have "- (x ^ 22 / fact 22) \<le> (cos (t + 1/2 * real 22 * pi) / fact 22) * x ^ 22"
    by (simp add: mult.commute)
  with t show ?thesis
    by linarith
qed

lemma cos_taylor_sum:
  "(\<Sum>m<22. cos_coeff m * x ^ m) =
   1 - x^2 / 2 + x^4 / 24 - x^6 / 720 + x^8 / 40320 - x^10 / 3628800 + x^12 / 479001600
     - x^14 / 87178291200 + x^16 / 20922789888000 - x^18 / 6402373705728000
     + x^20 / 2432902008176640000"
  by (simp add: cos_coeff_def lessThan_nat_numeral sum.lessThan_Suc fact_numeral)

lemma bracket_mult:
  fixes l u h l1 y h1 l' h' :: real
  assumes "l \<le> u \<and> u \<le> h" and "l1 \<le> y \<and> y \<le> h1" and "0 \<le> l" and "0 \<le> l1"
    and "l' \<le> l * l1" and "h * h1 \<le> h'"
  shows "l' \<le> u * y \<and> u * y \<le> h'"
proof
  have "l * l1 \<le> u * y"
    using assms by (intro mult_mono) auto
  with assms(5) show "l' \<le> u * y"
    by simp
  have "u * y \<le> h * h1"
    using assms by (intro mult_mono) auto
  with assms(6) show "u * y \<le> h'"
    by simp
qed
lemma cos_taylor_sum_sq:
  fixes x y :: real
  assumes "y = x\<^sup>2"
  shows "(\<Sum>m<22. cos_coeff m * x ^ m) - x ^ 22 / fact 22 =
   1 - y / 2 + y^2 / 24 - y^3 / 720 + y^4 / 40320 - y^5 / 3628800 + y^6 / 479001600
     - y^7 / 87178291200 + y^8 / 20922789888000 - y^9 / 6402373705728000
     + y^10 / 2432902008176640000 - y^11 / 1124000727777607680000"
  unfolding cos_taylor_sum assms by (simp add: power_mult [symmetric] fact_numeral)

lemma cos_np_pi_half_pos: "0 < cos (np_pi / 2)"
proof -
  define y where "y = (np_pi / 2)\<^sup>2"
  have b1: "2912993063930445126451 / 1180591620717411303424 \<le> y \<and> y \<le> 2912993063930445126452 / 1180591620717411303424"
    by (simp add: y_def np_pi_def power2_eq_square)
  have b2: "7187522291027673593328 / 1180591620717411303424 \<le> y ^ 2 \<and> y ^ 2 \<le> 7187522291027673593333 / 1180591620717411303424"
    using bracket_mult [OF b1 b1, of "7187522291027673593328 / 1180591620717411303424" "7187522291027673593333 / 1180591620717411303424"]
    by (simp add: power2_eq_square)
  have b3: "17734500409113647910919 / 1180591620717411303424 \<le> y ^ 3 \<and> y ^ 3 \<le> 17734500409113647910938 / 1180591620717411303424"
    using bracket_mult [OF b2 b1, of "17734500409113647910919 / 1180591620717411303424" "17734500409113647910938 / 1180591620717411303424"] power_Suc2 [of y 2]
    by simp
  have b4: "43758125822227269186714 / 1180591620717411303424 \<le> y ^ 4 \<and> y ^ 4 \<le> 43758125822227269186777 / 1180591620717411303424"
    using bracket_mult [OF b3 b1, of "43758125822227269186714 / 1180591620717411303424" "43758125822227269186777 / 1180591620717411303424"] power_Suc2 [of y 3]
    by simp
  have b5: "107968847799619032900759 / 1180591620717411303424 \<le> y ^ 5 \<and> y ^ 5 \<le> 107968847799619032900952 / 1180591620717411303424"
    using bracket_mult [OF b4 b1, of "107968847799619032900759 / 1180591620717411303424" "107968847799619032900952 / 1180591620717411303424"] power_Suc2 [of y 4]
    by simp
  have b6: "266402453855916759319568 / 1180591620717411303424 \<le> y ^ 6 \<and> y ^ 6 \<le> 266402453855916759320137 / 1180591620717411303424"
    using bracket_mult [OF b5 b1, of "266402453855916759319568 / 1180591620717411303424" "266402453855916759320137 / 1180591620717411303424"] power_Suc2 [of y 5]
    by simp
  have b7: "657321707759340154502917 / 1180591620717411303424 \<le> y ^ 7 \<and> y ^ 7 \<le> 657321707759340154504547 / 1180591620717411303424"
    using bracket_mult [OF b6 b1, of "657321707759340154502917 / 1180591620717411303424" "657321707759340154504547 / 1180591620717411303424"] power_Suc2 [of y 6]
    by simp
  have b8: "1621876304958289072970757 / 1180591620717411303424 \<le> y ^ 8 \<and> y ^ 8 \<le> 1621876304958289072975337 / 1180591620717411303424"
    using bracket_mult [OF b7 b1, of "1621876304958289072970757 / 1180591620717411303424" "1621876304958289072975337 / 1180591620717411303424"] power_Suc2 [of y 7]
    by simp
  have b9: "4001819379359718833641588 / 1180591620717411303424 \<le> y ^ 9 \<and> y ^ 9 \<le> 4001819379359718833654263 / 1180591620717411303424"
    using bracket_mult [OF b8 b1, of "4001819379359718833641588 / 1180591620717411303424" "4001819379359718833654263 / 1180591620717411303424"] power_Suc2 [of y 8]
    by simp
  have b10: "9874093539723340883977639 / 1180591620717411303424 \<le> y ^ 10 \<and> y ^ 10 \<le> 9874093539723340884012304 / 1180591620717411303424"
    using bracket_mult [OF b9 b1, of "9874093539723340883977639 / 1180591620717411303424" "9874093539723340884012304 / 1180591620717411303424"] power_Suc2 [of y 9]
    by simp
  have b11: "24363349264105370318512045 / 1180591620717411303424 \<le> y ^ 11 \<and> y ^ 11 \<le> 24363349264105370318605942 / 1180591620717411303424"
    using bracket_mult [OF b10 b1, of "24363349264105370318512045 / 1180591620717411303424" "24363349264105370318605942 / 1180591620717411303424"] power_Suc2 [of y 10]
    by simp
  have pos: "(0::real) < 1 - 2912993063930445126452 / 1180591620717411303424 / 2 + 7187522291027673593328 / 1180591620717411303424 / 24 - 17734500409113647910938 / 1180591620717411303424 / 720 + 43758125822227269186714 / 1180591620717411303424 / 40320 - 107968847799619032900952 / 1180591620717411303424 / 3628800 + 266402453855916759319568 / 1180591620717411303424 / 479001600 - 657321707759340154504547 / 1180591620717411303424 / 87178291200 + 1621876304958289072970757 / 1180591620717411303424 / 20922789888000 - 4001819379359718833654263 / 1180591620717411303424 / 6402373705728000 + 9874093539723340883977639 / 1180591620717411303424 / 2432902008176640000 - 24363349264105370318605942 / 1180591620717411303424 / 1124000727777607680000"
    by simp
  have "0 < 1 - y / 2 + y^2 / 24 - y^3 / 720 + y^4 / 40320 - y^5 / 3628800 + y^6 / 479001600
     - y^7 / 87178291200 + y^8 / 20922789888000 - y^9 / 6402373705728000
     + y^10 / 2432902008176640000 - y^11 / 1124000727777607680000"
    using pos b1 b2 b3 b4 b5 b6 b7 b8 b9 b10 b11 by linarith
  then have "0 < (\<Sum>m<22. cos_coeff m * (np_pi / 2) ^ m) - (np_pi / 2) ^ 22 / fact 22"
    by (simp only: cos_taylor_sum_sq [OF y_def])
  moreover have "0 < np_pi / 2"
    by (simp add: np_pi_def)
  ultimately show ?thesis
    using cos_taylor_lower [of "np_pi / 2"] by linarith
qed

lemma np_pi_less_pi: "np_pi < pi"
proof (rule ccontr)
  assume "\<not> np_pi < pi"
  then have a: "pi / 2 \<le> np_pi / 2"
    by simp
  have b: "np_pi / 2 \<le> pi"
    using pi_ge_two by (simp add: np_pi_def)
  have "cos (np_pi / 2) \<le> cos (pi / 2)"
    using a b by (intro cos_monotone_0_pi_le) simp_all
  then show False
    using cos_np_pi_half_pos by simp
qed

lemma np_pi_pos: "0 < np_pi"
  by (simp add: np_pi_def)



section \<open>Position\<close>

lemma sphere_sum_of_squares:
  "(r * cos p * cos t)\<^sup>2 + (r * sin p)\<^sup>2 + (r * cos p * sin t)\<^sup>2 = (r::real)\<^sup>2"
  by (simp add: power_mult_distrib sin_squared_eq algebra_simps)

lemma norm3_position: "norm3 (position c) = \<bar>radius c\<bar>"
  by (simp add: norm3_def position_def sphere_sum_of_squares)

lemma position_Camera_init: "position Camera_init = Vec3 50 0 0"
  by (simp add: position_def Camera_init_def)

text \<open>
  C3. \<open>position\<close> returns exactly
  \<open>(radius * cos phi * cos theta, radius * sin phi, radius * cos phi * sin theta)\<close>;
  so the Euclidean norm of the position is the radius, for every \<open>theta\<close> and \<open>phi\<close>
  (the radius of a camera is not negative); and the freshly constructed camera
  stands at \<open>(50, 0, 0)\<close>.
\<close>

theorem position_spherical:
  "position c = Vec3 (radius c * cos (phi c) * cos (theta c))
                     (radius c * sin (phi c))
                     (radius c * cos (phi c) * sin (theta c))
   \<and> (0 \<le> radius c \<longrightarrow> norm3 (position c) = radius c)
   \<and> position Camera_init = Vec3 50 0 0"
proof (intro conjI impI)
  show "position c = Vec3 (radius c * cos (phi c) * cos (theta c))
                          (radius c * sin (phi c))
                          (radius c * cos (phi c) * sin (theta c))"
    by (simp add: position_def)
next
  assume "0 \<le> radius c"
  then show "norm3 (position c) = radius c"
    by (simp add: norm3_position)
next
  show "position Camera_init = Vec3 50 0 0"
    by (rule position_Camera_init)
qed

theorem position_spherical_witness:
  "0 \<le> radius Camera_init \<and> norm3 (position Camera_init) = radius Camera_init
   \<and> norm3 (position Camera_init) = 50"
proof -
  have r: "radius Camera_init = 50"
    by (simp add: Camera_init_def)
  then have h: "0 \<le> radius Camera_init"
    by simp
  with position_spherical [of Camera_init]
  have "norm3 (position Camera_init) = radius Camera_init"
    by blast
  with h r show ?thesis
    by simp
qed


section \<open>The basis and the ray where they are finite\<close>

lemma bv_forward_pos:
  assumes "0 < radius c"
  shows "bv_forward c = Finite (fwd c)"
proof -
  have n: "norm3 (position c) = radius c"
    using assms by (simp add: norm3_position)
  have "bv_forward c = Finite (div3 (neg3 (position c)) (radius c))"
    using assms by (simp add: bv_forward_def n)
  moreover have "div3 (neg3 (position c)) (radius c) = fwd c"
    using assms by (simp add: div3_def neg3_def position_def fwd_def)
  ultimately show ?thesis
    by simp
qed

lemma bv_forward_zero: "radius c = 0 \<Longrightarrow> bv_forward c = NonFinite"
  by (simp add: bv_forward_def norm3_position)

lemma dot3_fwd: "dot3 (fwd c) (fwd c) = 1"
  using sphere_sum_of_squares [of 1 "phi c" "theta c"]
  by (simp add: dot3_def fwd_def power2_eq_square)

lemma norm3_fwd: "norm3 (fwd c) = 1"
  by (simp add: norm3_eq_1_iff dot3_fwd)

lemma bv_right_cross_pos:
  "0 < radius c \<Longrightarrow> bv_right_cross c = Finite (cross3 (Vec3 0 1 0) (fwd c))"
  by (simp add: bv_right_cross_def world_up_def bv_forward_pos)

lemma cross3_up_fwd:
  "cross3 (Vec3 0 1 0) (fwd c) = Vec3 (- (cos (phi c) * sin (theta c))) 0 (cos (phi c) * cos (theta c))"
  by (simp add: cross3_def fwd_def)

lemma norm3_cross3_up_fwd: "norm3 (cross3 (Vec3 0 1 0) (fwd c)) = \<bar>cos (phi c)\<bar>"
proof -
  have "(cos (phi c) * sin (theta c))\<^sup>2 + (cos (phi c) * cos (theta c))\<^sup>2 = (cos (phi c))\<^sup>2"
    by (simp add: power_mult_distrib sin_squared_eq algebra_simps)
  then show ?thesis
    by (simp add: cross3_up_fwd norm3_def)
qed


lemma bv_right_pos:
  assumes "0 < radius c" and "cos (phi c) \<noteq> 0"
  shows "bv_right c = Finite (rgt c)"
  using assms by (simp add: bv_right_def bv_right_cross_pos norm3_cross3_up_fwd rgt_def)

lemma norm3_rgt: "cos (phi c) \<noteq> 0 \<Longrightarrow> norm3 (rgt c) = 1"
  using norm3_normalised [of "cross3 (Vec3 0 1 0) (fwd c)"]
  by (simp add: rgt_def norm3_cross3_up_fwd)

lemma dot3_fwd_rgt: "dot3 (fwd c) (rgt c) = 0"
  by (simp add: rgt_def dot3_div3_right dot3_cross3_right)

lemma bv_up_pos:
  assumes "0 < radius c" and "cos (phi c) \<noteq> 0"
  shows "bv_up c = Finite (upv c)"
  using assms by (simp add: bv_up_def bv_forward_pos bv_right_pos upv_def)

lemma dot3_up_up:
  "cos (phi c) \<noteq> 0 \<Longrightarrow> dot3 (upv c) (upv c) = 1"
  using norm3_rgt [of c]
  by (simp add: upv_def lagrange dot3_fwd dot3_fwd_rgt norm3_eq_1_iff)

lemma rd_dir_world_pos:
  assumes "0 < radius c" and "cos (phi c) \<noteq> 0"
  shows "rd_dir_world c px py img_w img_h = Finite (dirv c px py img_w img_h)"
  using assms
  by (simp add: rd_dir_world_def Let_def basis_vectors_def bv_forward_pos bv_right_pos bv_up_pos
      dirv_def cam_x_def cam_y_def upv_def)

lemma dot3_dirv:
  assumes "cos (phi c) \<noteq> 0"
  shows "dot3 (dirv c px py img_w img_h) (dirv c px py img_w img_h)
         = (cam_x c px img_w img_h)\<^sup>2 + (cam_y c py img_h)\<^sup>2 + 1"
proof -
  have r: "dot3 (rgt c) (rgt c) = 1"
    using assms norm3_rgt [of c] by (simp add: norm3_eq_1_iff)
  have u: "dot3 (upv c) (upv c) = 1"
    using assms by (simp add: dot3_up_up)
  have ru: "dot3 (rgt c) (upv c) = 0"
    by (simp add: upv_def dot3_cross3_right)
  have fu: "dot3 (fwd c) (upv c) = 0"
    by (simp add: upv_def dot3_cross3_left)
  show ?thesis
    unfolding dirv_def dot3_combination
    by (simp add: r u ru fu dot3_fwd dot3_fwd_rgt)
qed

lemma norm3_dirv_ge_1:
  assumes "cos (phi c) \<noteq> 0"
  shows "1 \<le> norm3 (dirv c px py img_w img_h)"
proof -
  have "1 \<le> (norm3 (dirv c px py img_w img_h))\<^sup>2"
    using assms by (simp add: norm3_sq dot3_dirv)
  then show ?thesis
    using norm3_nonneg [of "dirv c px py img_w img_h"]
    by (simp add: power2_nonneg_ge_1_iff)
qed

lemma ray_direction_pos:
  assumes "0 < radius c" and "cos (phi c) \<noteq> 0" and "img_w \<noteq> 0" and "img_h \<noteq> 0"
  shows "ray_direction c px py img_w img_h
         = Inr (Finite (div3 (dirv c px py img_w img_h) (norm3 (dirv c px py img_w img_h))))"
  using assms norm3_dirv_ge_1 [of c px py img_w img_h]
  by (simp add: ray_direction_def rd_dir_world_pos)





lemma pole_camera_eq:
  "pole_camera = Camera_init\<lparr>phi := np_pi / 2, dragging := True\<rparr>"
proof -
  have "np_pi / 2 \<le> 5" and "- np_pi / 2 \<le> np_pi / 2"
    by (simp_all add: np_pi_def)
  then show ?thesis
    by (simp add: pole_camera_def Camera_init_def min_def max_def)
qed


section \<open>Orthonormal basis\<close>




text \<open>
  The basis at that end, written out: forward points almost straight down, with the small
  component \<open>-cos (np_pi/2)\<close> towards the axis, right is \<open>(0, 0, 1)\<close>, and up is
  almost \<open>(-1, 0, 0)\<close>.
\<close>

lemma basis_vectors_pole:
  "basis_vectors pole_camera =
     (Finite (Vec3 (- cos (np_pi / 2)) (- sin (np_pi / 2)) 0),
      Finite (Vec3 0 0 1),
      Finite (Vec3 (- sin (np_pi / 2)) (cos (np_pi / 2)) 0))"
proof -
  have r: "0 < radius pole_camera" and p: "phi pole_camera = np_pi / 2"
    and t: "theta pole_camera = 0"
    by (simp_all add: pole_camera_eq Camera_init_def)
  have pos: "0 < cos (np_pi / 2)"
    by (rule cos_np_pi_half_pos)
  have f: "fwd pole_camera = Vec3 (- cos (np_pi / 2)) (- sin (np_pi / 2)) 0"
    by (simp add: fwd_def p t)
  have g: "rgt pole_camera = Vec3 0 0 1"
    using pos by (simp add: rgt_def cross3_up_fwd div3_def p t)
  have u: "upv pole_camera = Vec3 (- sin (np_pi / 2)) (cos (np_pi / 2)) 0"
    by (simp add: upv_def f g cross3_def)
  show ?thesis
    using r pos by (simp add: basis_vectors_def bv_forward_pos bv_right_pos bv_up_pos p f g u)
qed


section \<open>Ray through a pixel\<close>



lemma cam_x_centre: "img_w \<noteq> 0 \<Longrightarrow> cam_x c ((real_of_int img_w - 1) / 2) img_w img_h = 0"
  by (simp add: cam_x_def field_simps)

lemma cam_y_centre: "img_h \<noteq> 0 \<Longrightarrow> cam_y c ((real_of_int img_h - 1) / 2) img_h = 0"
  by (simp add: cam_y_def field_simps)

lemma dirv_centre:
  assumes "img_w \<noteq> 0" and "img_h \<noteq> 0"
  shows "dirv c ((real_of_int img_w - 1) / 2) ((real_of_int img_h - 1) / 2) img_w img_h = fwd c"
  using assms
  by (simp add: dirv_def cam_x_centre cam_y_centre add3_def scale3_def fwd_def)

lemma fwd_fov: "fwd (c\<lparr>fov := a\<rparr>) = fwd c"
  by (simp add: fwd_def)

text \<open>
  C5. For a positive radius, \<open>|phi| < pi/2\<close> and positive image sizes, the ray through
  the centre \<open>px = (img_w - 1) / 2\<close>, \<open>py = (img_h - 1) / 2\<close> is the forward vector,
  whatever the field of view is set to. (On odd sizes the centre is a whole pixel; the
  equation holds for even sizes too.)
\<close>

theorem centre_ray_is_forward:
  assumes "0 < radius c" and "\<bar>phi c\<bar> < pi / 2" and "0 < img_w" and "0 < img_h"
  shows "\<exists>f. fst (basis_vectors c) = Finite f
             \<and> (\<forall>a. ray_direction (c\<lparr>fov := a\<rparr>) ((real_of_int img_w - 1) / 2)
                       ((real_of_int img_h - 1) / 2) img_w img_h = Inr (Finite f))"
proof -
  have cp: "0 < cos (phi c)"
    using assms(2) by (intro cos_gt_zero_pi) auto
  have f: "fst (basis_vectors c) = Finite (fwd c)"
    using assms(1) by (simp add: basis_vectors_def bv_forward_pos)
  have "ray_direction (c\<lparr>fov := a\<rparr>) ((real_of_int img_w - 1) / 2)
          ((real_of_int img_h - 1) / 2) img_w img_h = Inr (Finite (fwd c))" for a
  proof -
    have "ray_direction (c\<lparr>fov := a\<rparr>) ((real_of_int img_w - 1) / 2)
            ((real_of_int img_h - 1) / 2) img_w img_h
          = Inr (Finite (div3 (fwd (c\<lparr>fov := a\<rparr>)) (norm3 (fwd (c\<lparr>fov := a\<rparr>)))))"
      using assms cp by (simp add: ray_direction_pos dirv_centre)
    also have "\<dots> = Inr (Finite (fwd c))"
      by (simp add: fwd_fov norm3_fwd) (simp add: div3_def)
    finally show ?thesis .
  qed
  with f show ?thesis
    by blast
qed

theorem centre_ray_is_forward_witness:
  "0 < radius Camera_init \<and> \<bar>phi Camera_init\<bar> < pi / 2 \<and> (0::int) < 3 \<and> (0::int) < 1
   \<and> (\<exists>f. fst (basis_vectors Camera_init) = Finite f
        \<and> ray_direction (Camera_init\<lparr>fov := 1\<rparr>) ((real_of_int 3 - 1) / 2)
            ((real_of_int 1 - 1) / 2) 3 1 = Inr (Finite f))"
proof -
  have h1: "0 < radius Camera_init" and h2: "\<bar>phi Camera_init\<bar> < pi / 2"
    by (simp_all add: Camera_init_def)
  have h3: "(0::int) < 3" and h4: "(0::int) < 1"
    by simp_all
  from centre_ray_is_forward [OF h1 h2 h3 h4] h1 h2 show ?thesis
    by auto
qed


section \<open>Degenerate geometry\<close>

text \<open>
  C8, as amended. With \<open>radius = 0\<close> no error is signalled: \<open>basis_vectors\<close> divides
  the zero position by its zero norm and returns three nan arrays, and
  \<open>ray_direction\<close>, for image sizes other than zero, returns a nan array.
\<close>

theorem zero_radius_nan:
  assumes "radius c = 0"
  shows "basis_vectors c = (NonFinite, NonFinite, NonFinite)
         \<and> (img_w \<noteq> 0 \<and> img_h \<noteq> 0 \<longrightarrow> ray_direction c px py img_w img_h = Inr NonFinite)"
proof -
  have f: "bv_forward c = NonFinite"
    using assms by (rule bv_forward_zero)
  then have b: "basis_vectors c = (NonFinite, NonFinite, NonFinite)"
    by (simp add: basis_vectors_def bv_up_def bv_right_def bv_right_cross_def world_up_def)
  then have "rd_dir_world c px py img_w img_h = NonFinite"
    by (simp add: rd_dir_world_def Let_def)
  with b show ?thesis
    by (simp add: ray_direction_def)
qed

theorem zero_radius_nan_witness:
  "radius (Camera_init\<lparr>radius := 0\<rparr>) = 0 \<and> (1::int) \<noteq> 0
   \<and> basis_vectors (Camera_init\<lparr>radius := 0\<rparr>) = (NonFinite, NonFinite, NonFinite)
   \<and> ray_direction (Camera_init\<lparr>radius := 0\<rparr>) 3 4 1 1 = Inr NonFinite"
proof -
  have h: "radius (Camera_init\<lparr>radius := 0\<rparr>) = 0"
    by simp
  from zero_radius_nan [OF h, of 1 1 3 4] h show ?thesis
    by simp
qed

text \<open>
  C8 as stated wants a degenerate-geometry error. The constructed camera with its
  radius set to zero gets nan arrays from both queries, and no error.
\<close>

theorem zero_radius_counterexample:
  "basis_vectors (Camera_init\<lparr>radius := 0\<rparr>) = (NonFinite, NonFinite, NonFinite)
   \<and> ray_direction (Camera_init\<lparr>radius := 0\<rparr>) 0 0 1 1 = Inr NonFinite
   \<and> \<not> (\<exists>e. ray_direction (Camera_init\<lparr>radius := 0\<rparr>) 0 0 1 1 = Inl e)"
proof -
  have f: "bv_forward (Camera_init\<lparr>radius := 0\<rparr>) = NonFinite"
    by (simp add: bv_forward_zero)
  then have b: "basis_vectors (Camera_init\<lparr>radius := 0\<rparr>) = (NonFinite, NonFinite, NonFinite)"
    by (simp add: basis_vectors_def bv_up_def bv_right_def bv_right_cross_def world_up_def)
  then have "rd_dir_world (Camera_init\<lparr>radius := 0\<rparr>) 0 0 1 1 = NonFinite"
    by (simp add: rd_dir_world_def Let_def)
  with b show ?thesis
    by (simp add: ray_direction_def)
qed

text \<open>
  C10, as amended. For a positive radius and \<open>|phi| < pi/2\<close> the three norms the
  queries divide by are not zero: the norm of the position is the radius, the norm of
  \<open>cross(world_up, forward)\<close> is \<open>cos phi > 0\<close>, and the norm of the world direction
  before normalization is at least one; so both queries return finite arrays. The
  boundary states the camera can reach, \<open>|phi| = np_pi/2\<close>, are among these states:
  there the cross product has the norm \<open>cos (np_pi/2) > 0\<close> and right is finite.
\<close>

theorem divisors_nonzero:
  "(0 < radius c \<and> \<bar>phi c\<bar> < pi / 2 \<and> 0 < img_w \<and> 0 < img_h \<longrightarrow>
      arr_norm (Finite (position c)) = Some (radius c)
      \<and> arr_norm (bv_right_cross c) = Some (cos (phi c)) \<and> 0 < cos (phi c)
      \<and> (\<exists>n. arr_norm (rd_dir_world c px py img_w img_h) = Some n \<and> 1 \<le> n)
      \<and> (\<exists>f r u. basis_vectors c = (Finite f, Finite r, Finite u))
      \<and> (\<exists>v. ray_direction c px py img_w img_h = Inr (Finite v)))
   \<and> (0 < radius c \<and> \<bar>phi c\<bar> = np_pi / 2 \<longrightarrow>
      \<bar>phi c\<bar> < pi / 2
      \<and> arr_norm (bv_right_cross c) = Some (cos (np_pi / 2)) \<and> 0 < cos (np_pi / 2)
      \<and> (\<exists>r. bv_right c = Finite r))"
proof (intro conjI impI)
  assume a: "0 < radius c \<and> \<bar>phi c\<bar> < pi / 2 \<and> 0 < img_w \<and> 0 < img_h"
  then have cp: "0 < cos (phi c)"
    by (intro cos_gt_zero_pi) auto
  show "arr_norm (Finite (position c)) = Some (radius c)"
    using a by (simp add: norm3_position)
  show "arr_norm (bv_right_cross c) = Some (cos (phi c))"
    using a cp by (simp add: bv_right_cross_pos norm3_cross3_up_fwd)
  show "0 < cos (phi c)"
    by (rule cp)
  show "\<exists>n. arr_norm (rd_dir_world c px py img_w img_h) = Some n \<and> 1 \<le> n"
    using a cp norm3_dirv_ge_1 [of c px py img_w img_h] by (simp add: rd_dir_world_pos)
  show "\<exists>f r u. basis_vectors c = (Finite f, Finite r, Finite u)"
    using a cp by (simp add: basis_vectors_def bv_forward_pos bv_right_pos bv_up_pos)
  show "\<exists>v. ray_direction c px py img_w img_h = Inr (Finite v)"
    using a cp by (simp add: ray_direction_pos)
next
  assume b: "0 < radius c \<and> \<bar>phi c\<bar> = np_pi / 2"
  then have e: "phi c = np_pi / 2 \<or> phi c = - (np_pi / 2)"
    by (auto simp add: abs_if split: if_splits)
  then have c: "cos (phi c) = cos (np_pi / 2)"
  proof
    assume "phi c = np_pi / 2"
    then show ?thesis
      by (simp only:)
  next
    assume "phi c = - (np_pi / 2)"
    then show ?thesis
      by (simp only: cos_minus)
  qed
  have pos: "0 < cos (np_pi / 2)"
    by (rule cos_np_pi_half_pos)
  show "\<bar>phi c\<bar> < pi / 2"
    using b np_pi_less_pi by simp
  show "arr_norm (bv_right_cross c) = Some (cos (np_pi / 2))"
    using b c pos by (simp add: bv_right_cross_pos norm3_cross3_up_fwd)
  show "0 < cos (np_pi / 2)"
    by (rule pos)
  show "\<exists>r. bv_right c = Finite r"
    using b c pos by (simp add: bv_right_pos)
qed

theorem divisors_nonzero_witness:
  "0 < radius Camera_init \<and> \<bar>phi Camera_init\<bar> < pi / 2 \<and> (0::int) < 4 \<and> (0::int) < 3
   \<and> arr_norm (Finite (position Camera_init)) = Some (radius Camera_init)
   \<and> arr_norm (bv_right_cross Camera_init) = Some (cos (phi Camera_init))
   \<and> (\<exists>n. arr_norm (rd_dir_world Camera_init 0 0 4 3) = Some n \<and> 1 \<le> n)
   \<and> 0 < radius pole_camera \<and> \<bar>phi pole_camera\<bar> = np_pi / 2
   \<and> \<bar>phi pole_camera\<bar> < pi / 2
   \<and> arr_norm (bv_right_cross pole_camera) = Some (cos (np_pi / 2))
   \<and> (\<exists>r. bv_right pole_camera = Finite r)"
proof -
  have h1: "0 < radius Camera_init \<and> \<bar>phi Camera_init\<bar> < pi / 2 \<and> (0::int) < 4 \<and> (0::int) < 3"
    by (simp add: Camera_init_def)
  have h2: "0 < radius pole_camera \<and> \<bar>phi pole_camera\<bar> = np_pi / 2"
    using np_pi_pos by (simp add: pole_camera_eq Camera_init_def)
  from divisors_nonzero [of Camera_init 4 3 0 0] h1
  have "arr_norm (Finite (position Camera_init)) = Some (radius Camera_init)
      \<and> arr_norm (bv_right_cross Camera_init) = Some (cos (phi Camera_init))
      \<and> (\<exists>n. arr_norm (rd_dir_world Camera_init 0 0 4 3) = Some n \<and> 1 \<le> n)"
    by blast
  moreover from divisors_nonzero [of pole_camera 4 3 0 0] h2
  have "\<bar>phi pole_camera\<bar> < pi / 2
      \<and> arr_norm (bv_right_cross pole_camera) = Some (cos (np_pi / 2))
      \<and> (\<exists>r. bv_right pole_camera = Finite r)"
    by blast
  ultimately show ?thesis
    using h1 h2 by blast
qed

text \<open>
  C10 as stated ends: at the boundary states the camera can reach, the cross product
  has norm zero. The camera after one long drag upwards is such a state, with
  \<open>phi = np_pi/2\<close>: the norm of the cross product is \<open>cos (np_pi/2)\<close>, which is positive,
  and right is the finite unit vector \<open>(0, 0, 1)\<close>.
\<close>

theorem divisors_pole_counterexample:
  "0 < radius pole_camera \<and> phi pole_camera = np_pi / 2
   \<and> arr_norm (bv_right_cross pole_camera) = Some (cos (np_pi / 2))
   \<and> 0 < cos (np_pi / 2)
   \<and> arr_norm (bv_right_cross pole_camera) \<noteq> Some 0
   \<and> bv_right pole_camera = Finite (Vec3 0 0 1)"
proof -
  have r: "0 < radius pole_camera" and p: "phi pole_camera = np_pi / 2"
    and t: "theta pole_camera = 0"
    by (simp_all add: pole_camera_eq Camera_init_def)
  have pos: "0 < cos (np_pi / 2)"
    by (rule cos_np_pi_half_pos)
  have n: "arr_norm (bv_right_cross pole_camera) = Some (cos (np_pi / 2))"
    using r pos by (simp add: bv_right_cross_pos norm3_cross3_up_fwd p)
  have "bv_right pole_camera = Finite (rgt pole_camera)"
    using r pos by (simp add: bv_right_pos p)
  moreover have "rgt pole_camera = Vec3 0 0 1"
    using pos by (simp add: rgt_def cross3_up_fwd div3_def p t)
  ultimately show ?thesis
    using r p pos n by simp
qed


section \<open>Events\<close>

lemma max_min_clamp: "max (- np_pi / 2) (min (np_pi / 2) p) = clamp_phi p"
  using np_pi_pos unfolding clamp_phi_def min_def max_def by (auto simp only: split: if_splits)

lemma clamp_phi_range: "- np_pi / 2 \<le> clamp_phi p \<and> clamp_phi p \<le> np_pi / 2"
  using np_pi_pos unfolding clamp_phi_def by (simp only: split: if_splits) linarith

lemma clamp_phi_range_pi: "- pi / 2 \<le> clamp_phi p \<and> clamp_phi p \<le> pi / 2"
  using clamp_phi_range [of p] np_pi_less_pi by linarith

text \<open>
  C4. A motion event \<open>(dx, dy)\<close> handled while dragging adds \<open>dx * mouse_sensitivity\<close>
  to \<open>theta\<close>, sets \<open>phi\<close> to \<open>phi - dy * mouse_sensitivity\<close> clamped to the program's
  \<open>[-np.pi/2, np.pi/2]\<close>, which lies in \<open>[-pi/2, pi/2]\<close>, sets the dirty flag, and
  changes no other field.
\<close>

theorem drag_motion:
  assumes "dragging c"
  shows "handle_event c (MOUSEMOTION dx dy)
         = c\<lparr>theta := theta c + real_of_int dx * mouse_sensitivity c,
              phi := clamp_phi (phi c - real_of_int dy * mouse_sensitivity c),
              dirty := True\<rparr>
         \<and> - pi / 2 \<le> phi (handle_event c (MOUSEMOTION dx dy))
         \<and> phi (handle_event c (MOUSEMOTION dx dy)) \<le> pi / 2
         \<and> radius (handle_event c (MOUSEMOTION dx dy)) = radius c
         \<and> fov (handle_event c (MOUSEMOTION dx dy)) = fov c
         \<and> mouse_sensitivity (handle_event c (MOUSEMOTION dx dy)) = mouse_sensitivity c
         \<and> dragging (handle_event c (MOUSEMOTION dx dy)) = dragging c"
proof -
  have r: "- pi / 2 \<le> clamp_phi p \<and> clamp_phi p \<le> pi / 2" for p
    by (rule clamp_phi_range_pi)
  have "phi (handle_event c (MOUSEMOTION dx dy))
        = clamp_phi (phi c - real_of_int dy * mouse_sensitivity c)"
    using assms by (simp only: handle_event.simps max_min_clamp if_True) simp
  moreover have "handle_event c (MOUSEMOTION dx dy)
         = c\<lparr>theta := theta c + real_of_int dx * mouse_sensitivity c,
              phi := clamp_phi (phi c - real_of_int dy * mouse_sensitivity c),
              dirty := True\<rparr>"
    using assms by (simp only: handle_event.simps max_min_clamp if_True)
  moreover have "radius (handle_event c (MOUSEMOTION dx dy)) = radius c"
    and "fov (handle_event c (MOUSEMOTION dx dy)) = fov c"
    and "mouse_sensitivity (handle_event c (MOUSEMOTION dx dy)) = mouse_sensitivity c"
    and "dragging (handle_event c (MOUSEMOTION dx dy)) = dragging c"
    using assms by simp_all
  ultimately show ?thesis
    using r [of "phi c - real_of_int dy * mouse_sensitivity c"] by (simp only: simp_thms)
qed

theorem drag_motion_witness:
  "dragging pole_camera
   \<and> handle_event pole_camera (MOUSEMOTION 100 0)
     = pole_camera\<lparr>theta := theta pole_camera + real_of_int 100 * mouse_sensitivity pole_camera,
              phi := clamp_phi (phi pole_camera - real_of_int 0 * mouse_sensitivity pole_camera),
              dirty := True\<rparr>"
proof -
  have h: "dragging pole_camera"
    by (simp add: pole_camera_eq)
  from drag_motion [OF h, of 100 0] h show ?thesis
    by blast
qed

text \<open>
  C9. A motion event while not dragging, an event of any other type, and a button
  event of a button other than the primary one leave the whole camera as it is;
  \<open>handle_event\<close> has no failing branch.
\<close>

theorem ignored_events:
  "(\<not> dragging c \<longrightarrow> handle_event c (MOUSEMOTION dx dy) = c)
   \<and> handle_event c OTHER_EVENT = c
   \<and> (b \<noteq> 1 \<longrightarrow> handle_event c (MOUSEBUTTONDOWN b) = c \<and> handle_event c (MOUSEBUTTONUP b) = c)"
  by simp

theorem ignored_events_witness:
  "\<not> dragging Camera_init \<and> handle_event Camera_init (MOUSEMOTION 100 (- 40)) = Camera_init
   \<and> (3::int) \<noteq> 1 \<and> handle_event Camera_init (MOUSEBUTTONDOWN 3) = Camera_init
   \<and> handle_event Camera_init (MOUSEBUTTONUP 3) = Camera_init"
proof -
  have h: "\<not> dragging Camera_init"
    by (simp add: Camera_init_def)
  have k: "(3::int) \<noteq> 1"
    by simp
  from ignored_events [of Camera_init 100 "- 40" 3] h k show ?thesis
    by blast
qed


section \<open>The clamp of phi\<close>

lemma step_phi_range:
  assumes "- np_pi / 2 \<le> phi c \<and> phi c \<le> np_pi / 2"
  shows "- np_pi / 2 \<le> phi (step c a) \<and> phi (step c a) \<le> np_pi / 2"
proof (cases a)
  case (HandleEvent e)
  show ?thesis
  proof (cases e)
    case (MOUSEMOTION dx dy)
    show ?thesis
    proof (cases "dragging c")
      case True
      then have "phi (step c a) = clamp_phi (phi c - real_of_int dy * mouse_sensitivity c)"
        using HandleEvent MOUSEMOTION
        by (simp only: step.simps handle_event.simps max_min_clamp if_True) simp
      then show ?thesis
        by (simp only: clamp_phi_range)
    next
      case False
      then show ?thesis
        using assms HandleEvent MOUSEMOTION by simp
    qed
  qed (use assms HandleEvent in simp_all)
qed (use assms in \<open>simp_all add: update_def consume_dirty_def\<close>)

lemma run_phi_range:
  "- np_pi / 2 \<le> phi c \<and> phi c \<le> np_pi / 2
   \<Longrightarrow> - np_pi / 2 \<le> phi (run c as) \<and> phi (run c as) \<le> np_pi / 2"
proof (induction as arbitrary: c)
  case Nil
  then show ?case by simp
next
  case (Cons a as)
  from Cons.prems have "- np_pi / 2 \<le> phi (step c a) \<and> phi (step c a) \<le> np_pi / 2"
    by (rule step_phi_range)
  then show ?case
    using Cons.IH by simp
qed

lemma step_mouse_sensitivity: "mouse_sensitivity (step c a) = mouse_sensitivity c"
proof (cases a)
  case (HandleEvent e)
  then show ?thesis
    by (cases e) simp_all
qed (simp_all add: update_def consume_dirty_def)

lemma run_mouse_sensitivity: "mouse_sensitivity (run c as) = mouse_sensitivity c"
  by (induction as arbitrary: c) (simp_all add: step_mouse_sensitivity)

lemma Camera_init_phi_range:
  "- np_pi / 2 \<le> phi Camera_init \<and> phi Camera_init \<le> np_pi / 2"
  using np_pi_pos by (simp add: Camera_init_def)

lemma drag_up_repeat:
  assumes "dragging c" and "- np_pi / 2 \<le> phi c" and "phi c \<le> np_pi / 2"
    and "0 \<le> d" and "d = - (real_of_int dy * mouse_sensitivity c)"
  shows "phi (run c (replicate n (HandleEvent (MOUSEMOTION dx dy))))
         = min (np_pi / 2) (phi c + real n * d)"
  using assms
proof (induction n arbitrary: c)
  case 0
  then show ?case by simp
next
  case (Suc n)
  let ?c = "step c (HandleEvent (MOUSEMOTION dx dy))"
  have p: "phi ?c = min (np_pi / 2) (phi c + d)"
    using Suc.prems by (simp add: min_def max_def)
  have "phi (run ?c (replicate n (HandleEvent (MOUSEMOTION dx dy))))
        = min (np_pi / 2) (phi ?c + real n * d)"
  proof (rule Suc.IH)
    show "dragging ?c" using Suc.prems by simp
    show "- np_pi / 2 \<le> phi ?c" using Suc.prems p by (simp add: min_def)
    show "phi ?c \<le> np_pi / 2" by (simp only: p min.cobounded1)
    show "0 \<le> d" by (rule Suc.prems)
    show "d = - (real_of_int dy * mouse_sensitivity ?c)" using Suc.prems by simp
  qed
  also have "\<dots> = min (np_pi / 2) (phi c + real (Suc n) * d)"
  proof -
    have "0 \<le> real n * d"
      using Suc.prems(4) by simp
    then show ?thesis
      unfolding p by (simp add: min_def algebra_simps)
  qed
  finally show ?case
    by simp
qed

lemma drag_down_repeat:
  assumes "dragging c" and "- np_pi / 2 \<le> phi c" and "phi c \<le> np_pi / 2"
    and "0 \<le> d" and "d = real_of_int dy * mouse_sensitivity c"
  shows "phi (run c (replicate n (HandleEvent (MOUSEMOTION dx dy))))
         = max (- np_pi / 2) (phi c - real n * d)"
  using assms
proof (induction n arbitrary: c)
  case 0
  then show ?case by simp
next
  case (Suc n)
  let ?c = "step c (HandleEvent (MOUSEMOTION dx dy))"
  have p: "phi ?c = max (- np_pi / 2) (phi c - d)"
    using Suc.prems by (simp add: min_def max_def)
  have "phi (run ?c (replicate n (HandleEvent (MOUSEMOTION dx dy))))
        = max (- np_pi / 2) (phi ?c - real n * d)"
  proof (rule Suc.IH)
    show "dragging ?c" using Suc.prems by simp
    show "- np_pi / 2 \<le> phi ?c" by (simp only: p max.cobounded1)
    show "phi ?c \<le> np_pi / 2" using Suc.prems p by (simp add: max_def)
    show "0 \<le> d" by (rule Suc.prems)
    show "d = real_of_int dy * mouse_sensitivity ?c" using Suc.prems by simp
  qed
  also have "\<dots> = max (- np_pi / 2) (phi c - real (Suc n) * d)"
  proof -
    have "0 \<le> real n * d"
      using Suc.prems(4) by simp
    then show ?thesis
      unfolding p by (simp add: max_def algebra_simps)
  qed
  finally show ?case
    by simp
qed

text \<open>
  C6. \<open>phi\<close> starts at \<open>0\<close>, and after any run of operations from the constructed
  camera it lies in \<open>[-pi/2, pi/2]\<close>, indeed between the program's bounds \<open>-np.pi/2\<close>
  and \<open>np.pi/2\<close>. While dragging, \<open>n\<close> motions of \<open>dy < 0\<close> that together amount to at
  least \<open>pi\<close> leave it at exactly \<open>np.pi/2\<close>, the program's \<open>pi/2\<close>, and \<open>n\<close> motions
  of \<open>dy > 0\<close> at exactly \<open>-np.pi/2\<close>.
\<close>

theorem phi_clamped:
  "phi Camera_init = 0
   \<and> - pi / 2 \<le> phi (run Camera_init ops) \<and> phi (run Camera_init ops) \<le> pi / 2
   \<and> - np_pi / 2 \<le> phi (run Camera_init ops) \<and> phi (run Camera_init ops) \<le> np_pi / 2
   \<and> (dragging (run Camera_init ops) \<and> dy < 0
        \<and> pi \<le> real n * (real_of_int (- dy) * (5 / 1000))
       \<longrightarrow> phi (run (run Camera_init ops) (replicate n (HandleEvent (MOUSEMOTION dx dy))))
           = np_pi / 2)
   \<and> (dragging (run Camera_init ops) \<and> 0 < dy
        \<and> pi \<le> real n * (real_of_int dy * (5 / 1000))
       \<longrightarrow> phi (run (run Camera_init ops) (replicate n (HandleEvent (MOUSEMOTION dx dy))))
           = - np_pi / 2)"
proof -
  let ?c = "run Camera_init ops"
  have r: "- np_pi / 2 \<le> phi ?c \<and> phi ?c \<le> np_pi / 2"
    using Camera_init_phi_range by (rule run_phi_range)
  have r': "- pi / 2 \<le> phi ?c \<and> phi ?c \<le> pi / 2"
    using r np_pi_less_pi by linarith
  have s: "mouse_sensitivity ?c = 5 / 1000"
    by (simp add: run_mouse_sensitivity Camera_init_def)
  have up: "phi (run ?c (replicate n (HandleEvent (MOUSEMOTION dx dy)))) = np_pi / 2"
    if "dragging ?c" and "dy < 0" and "pi \<le> real n * (real_of_int (- dy) * (5 / 1000))"
  proof -
    have "phi (run ?c (replicate n (HandleEvent (MOUSEMOTION dx dy))))
          = min (np_pi / 2) (phi ?c + real n * (real_of_int (- dy) * (5 / 1000)))"
      using that r by (intro drag_up_repeat) (simp_all add: s)
    moreover have "np_pi / 2 \<le> phi ?c + real n * (real_of_int (- dy) * (5 / 1000))"
      using that(3) r np_pi_less_pi by linarith
    ultimately show ?thesis
      by (simp only: min_def if_True)
  qed
  have down: "phi (run ?c (replicate n (HandleEvent (MOUSEMOTION dx dy)))) = - np_pi / 2"
    if "dragging ?c" and "0 < dy" and "pi \<le> real n * (real_of_int dy * (5 / 1000))"
  proof -
    have "phi (run ?c (replicate n (HandleEvent (MOUSEMOTION dx dy))))
          = max (- np_pi / 2) (phi ?c - real n * (real_of_int dy * (5 / 1000)))"
      using that r by (intro drag_down_repeat) (simp_all add: s)
    moreover have "phi ?c - real n * (real_of_int dy * (5 / 1000)) \<le> - np_pi / 2"
      using that(3) r np_pi_less_pi by linarith
    ultimately show ?thesis
      by (simp add: max_def)
  qed
  have "phi Camera_init = 0"
    by (simp add: Camera_init_def)
  with r r' up down show ?thesis
    by blast
qed

theorem phi_clamped_witness:
  "dragging (run Camera_init [HandleEvent (MOUSEBUTTONDOWN 1)])
   \<and> (- 400 :: int) < 0 \<and> pi \<le> real 2 * (real_of_int (- (- 400)) * (5 / 1000))
   \<and> phi (run (run Camera_init [HandleEvent (MOUSEBUTTONDOWN 1)])
             (replicate 2 (HandleEvent (MOUSEMOTION 0 (- 400))))) = np_pi / 2
   \<and> (0 :: int) < 400 \<and> pi \<le> real 2 * (real_of_int 400 * (5 / 1000))
   \<and> phi (run (run Camera_init [HandleEvent (MOUSEBUTTONDOWN 1)])
             (replicate 2 (HandleEvent (MOUSEMOTION 0 400)))) = - np_pi / 2"
proof -
  have d: "dragging (run Camera_init [HandleEvent (MOUSEBUTTONDOWN 1)])"
    by simp
  have a: "(- 400 :: int) < 0" and b: "(0 :: int) < 400"
    by simp_all
  have p: "pi \<le> real 2 * (real_of_int (- (- 400)) * (5 / 1000))"
    and q: "pi \<le> real 2 * (real_of_int 400 * (5 / 1000))"
    using pi_less_4 by simp_all
  from phi_clamped [of "[HandleEvent (MOUSEBUTTONDOWN 1)]" "- 400" 2 0] d a p
  have "phi (run (run Camera_init [HandleEvent (MOUSEBUTTONDOWN 1)])
             (replicate 2 (HandleEvent (MOUSEMOTION 0 (- 400))))) = np_pi / 2"
    by blast
  moreover from phi_clamped [of "[HandleEvent (MOUSEBUTTONDOWN 1)]" 400 2 0] d b q
  have "phi (run (run Camera_init [HandleEvent (MOUSEBUTTONDOWN 1)])
             (replicate 2 (HandleEvent (MOUSEMOTION 0 400)))) = - np_pi / 2"
    by blast
  ultimately show ?thesis
    using d a b p q by blast
qed


section \<open>The dirty flag\<close>

lemma step_dirty:
  "a \<noteq> ConsumeDirty \<Longrightarrow> dirty (step c a) = (dirty c \<or> assigns_orientation c a)"
proof (cases a)
  case (HandleEvent e)
  then show ?thesis
    by (cases e) auto
qed (simp_all add: update_def)

lemma run_dirty:
  "ConsumeDirty \<notin> set as \<Longrightarrow> dirty (run c as) = (dirty c \<or> run_assigns_orientation c as)"
proof (induction as arbitrary: c)
  case Nil
  then show ?case by simp
next
  case (Cons a as)
  then have "a \<noteq> ConsumeDirty" and "ConsumeDirty \<notin> set as"
    by auto
  then show ?case
    using Cons.IH [of "step c a"] step_dirty [of a c] by auto
qed

lemma step_orientation:
  assumes "\<not> assigns_orientation c a"
  shows "theta (step c a) = theta c \<and> phi (step c a) = phi c"
proof (cases a)
  case (HandleEvent e)
  then show ?thesis
    using assms by (cases e) auto
qed (simp_all add: update_def consume_dirty_def)

lemma run_orientation:
  "\<not> run_assigns_orientation c as \<Longrightarrow> theta (run c as) = theta c \<and> phi (run c as) = phi c"
proof (induction as arbitrary: c)
  case Nil
  then show ?case by simp
next
  case (Cons a as)
  then have "\<not> assigns_orientation c a" and "\<not> run_assigns_orientation (step c a) as"
    by auto
  then show ?case
    using Cons.IH [of "step c a"] step_orientation [of c a] by simp
qed

text \<open>
  C7, as amended. The flag starts true; \<open>consume_dirty\<close> returns its value and resets
  it to false, changing nothing else; over a run without \<open>consume_dirty\<close> the flag is
  true at the end if and only if it was true at the start or some step of the run
  assigned the orientation (a motion event handled while dragging); so whenever
  \<open>theta\<close> or \<open>phi\<close> differs from its value at the start of such a run the flag is
  true; and after one drag motion the next \<open>consume_dirty\<close> returns true and the one
  right after it false.
\<close>

theorem dirty_protocol:
  "dirty Camera_init
   \<and> fst (consume_dirty c) = dirty c
   \<and> snd (consume_dirty c) = c\<lparr>dirty := False\<rparr>
   \<and> (ConsumeDirty \<notin> set as \<longrightarrow>
        dirty (run c as) = (dirty c \<or> run_assigns_orientation c as))
   \<and> (ConsumeDirty \<notin> set as \<and> (theta (run c as) \<noteq> theta c \<or> phi (run c as) \<noteq> phi c) \<longrightarrow>
        dirty (run c as))
   \<and> (dragging c \<longrightarrow>
        fst (consume_dirty (handle_event c (MOUSEMOTION dx dy)))
        \<and> \<not> fst (consume_dirty (snd (consume_dirty (handle_event c (MOUSEMOTION dx dy))))))"
proof (intro conjI impI)
  show "dirty Camera_init"
    by (simp add: Camera_init_def)
  show "fst (consume_dirty c) = dirty c" and "snd (consume_dirty c) = c\<lparr>dirty := False\<rparr>"
    by (simp_all add: consume_dirty_def)
next
  assume "ConsumeDirty \<notin> set as"
  then show "dirty (run c as) = (dirty c \<or> run_assigns_orientation c as)"
    by (rule run_dirty)
next
  assume a: "ConsumeDirty \<notin> set as \<and> (theta (run c as) \<noteq> theta c \<or> phi (run c as) \<noteq> phi c)"
  then have "run_assigns_orientation c as"
    using run_orientation [of c as] by blast
  then show "dirty (run c as)"
    using a by (simp add: run_dirty)
next
  assume "dragging c"
  then show "fst (consume_dirty (handle_event c (MOUSEMOTION dx dy)))"
    by (simp add: consume_dirty_def)
next
  show "\<not> fst (consume_dirty (snd (consume_dirty (handle_event c (MOUSEMOTION dx dy)))))"
    by (simp add: consume_dirty_def)
qed

theorem dirty_protocol_witness:
  "ConsumeDirty \<notin> set [HandleEvent (MOUSEMOTION 100 0), Update 1]
   \<and> dragging pole_camera
   \<and> theta (run (snd (consume_dirty pole_camera)) [HandleEvent (MOUSEMOTION 100 0), Update 1])
       \<noteq> theta (snd (consume_dirty pole_camera))
   \<and> dirty (run (snd (consume_dirty pole_camera)) [HandleEvent (MOUSEMOTION 100 0), Update 1])
   \<and> fst (consume_dirty (handle_event pole_camera (MOUSEMOTION 100 0)))
   \<and> \<not> fst (consume_dirty (snd (consume_dirty (handle_event pole_camera (MOUSEMOTION 100 0)))))"
proof -
  have n: "ConsumeDirty \<notin> set [HandleEvent (MOUSEMOTION 100 0), Update 1]"
    by simp
  have d: "dragging pole_camera"
    by (simp add: pole_camera_eq)
  have t: "theta (run (snd (consume_dirty pole_camera)) [HandleEvent (MOUSEMOTION 100 0), Update 1])
       \<noteq> theta (snd (consume_dirty pole_camera))"
    by (simp add: consume_dirty_def update_def pole_camera_eq Camera_init_def)
  from dirty_protocol [of "snd (consume_dirty pole_camera)"
      "[HandleEvent (MOUSEMOTION 100 0), Update 1]"] n t
  have "dirty (run (snd (consume_dirty pole_camera)) [HandleEvent (MOUSEMOTION 100 0), Update 1])"
    by blast
  moreover from dirty_protocol [of pole_camera "[]" 100 0] d
  have "fst (consume_dirty (handle_event pole_camera (MOUSEMOTION 100 0)))
   \<and> \<not> fst (consume_dirty (snd (consume_dirty (handle_event pole_camera (MOUSEMOTION 100 0)))))"
    by blast
  ultimately show ?thesis
    using n d t by blast
qed

text \<open>
  C7 as stated makes the flag true only if \<open>theta\<close> or \<open>phi\<close> has changed since the
  last \<open>consume_dirty\<close>. With \<open>phi\<close> at \<open>np.pi/2\<close>, a further drag upwards after a
  \<open>consume_dirty\<close> sets the flag and leaves both angles as they were.
\<close>

theorem dirty_without_change_counterexample:
  "\<not> dirty (run pole_camera [ConsumeDirty])
   \<and> dirty (run pole_camera [ConsumeDirty, HandleEvent (MOUSEMOTION 0 (- 1000))])
   \<and> theta (run pole_camera [ConsumeDirty, HandleEvent (MOUSEMOTION 0 (- 1000))])
       = theta (run pole_camera [ConsumeDirty])
   \<and> phi (run pole_camera [ConsumeDirty, HandleEvent (MOUSEMOTION 0 (- 1000))])
       = phi (run pole_camera [ConsumeDirty])"
proof -
  have "np_pi / 2 \<le> np_pi / 2 + 5" and "- np_pi / 2 \<le> np_pi / 2"
    using np_pi_pos by simp_all
  then show ?thesis
    by (simp add: pole_camera_eq Camera_init_def consume_dirty_def min_def max_def)
qed

end
